theory Spec2Isabelle
  imports Main
begin

section \<open>OnyLogger: console output, prompts, spinner and option selector\<close>

text \<open>
  A shallow embedding of the Go package \<^verbatim>\<open>onylogger\<close>. Go strings are byte
  sequences, so a string is a \<^typ>\<open>string\<close> whose characters are bytes: the emoji
  constants are spelled as their UTF-8 bytes and the escape character is \<open>CHR 0x1B\<close>.
  Writing to the terminal is modelled as the list of calls the code makes to the two
  printing routines it uses, \<^verbatim>\<open>log.Println\<close> and \<^verbatim>\<open>fmt.Print\<close>, in order.
\<close>

subsection \<open>Flags, constants and output events\<close>

text \<open>The three package-level variables \<^verbatim>\<open>DebugEnabled\<close>, \<^verbatim>\<open>ColorsEnabled\<close> and
  \<^verbatim>\<open>SuppressOutput\<close>, read by every logging call.\<close>

record flags =
  DebugEnabled :: bool
  ColorsEnabled :: bool
  SuppressOutput :: bool

text \<open>The initial values of the three variables.\<close>

definition default_flags :: flags where
  "default_flags = \<lparr>DebugEnabled = False, ColorsEnabled = True, SuppressOutput = False\<rparr>"

text \<open>One call of a printing routine, with the string it is given. \<^verbatim>\<open>log.Println\<close>
  ends the line itself; \<^verbatim>\<open>fmt.Print\<close> writes its argument as it is.\<close>

datatype out_event = LogPrintln string | FmtPrint string

definition ESC :: char where
  "ESC = CHR 0x1B"

definition colorReset :: string where
  "colorReset = ESC # ''[0m''"

definition colorMagenta :: string where
  "colorMagenta = ESC # ''[35m''"

definition colorYellow :: string where
  "colorYellow = ESC # ''[33m''"

definition colorRed :: string where
  "colorRed = ESC # ''[31m''"

definition colorCyan :: string where
  "colorCyan = ESC # ''[36m''"

definition colorGreen :: string where
  "colorGreen = ESC # ''[32m''"

definition emojiInfo :: string where
  "emojiInfo = [CHR 0xF0, CHR 0x9F, CHR 0x93, CHR 0x9C]"

definition emojiWarning :: string where
  "emojiWarning = [CHR 0xE2, CHR 0x9A, CHR 0xA0, CHR 0xEF, CHR 0xB8, CHR 0x8F]"

definition emojiError :: string where
  "emojiError = [CHR 0xE2, CHR 0x9D, CHR 0x8C]"

definition emojiDebug :: string where
  "emojiDebug = [CHR 0xF0, CHR 0x9F, CHR 0x90, CHR 0x9B]"

definition emojiSuccess :: string where
  "emojiSuccess = [CHR 0xE2, CHR 0x9C, CHR 0x85]"

definition emojiLoading :: string where
  "emojiLoading = [CHR 0xE2, CHR 0x8F, CHR 0xB3]"

definition emojiInput :: string where
  "emojiInput = [CHR 0xF0, CHR 0x9F, CHR 0x93, CHR 0x9D]"

subsection \<open>The two formatters\<close>

text \<open>The \<^verbatim>\<open>switch level\<close> of \<^verbatim>\<open>logMessage\<close>: the colour and the emoji of a level,
  in the order of the source. An unknown level gets the reset sequence and no emoji.\<close>

definition level_color :: "string \<Rightarrow> string" where
  "level_color level =
     (if level = ''INFO'' then colorMagenta
      else if level = ''WARNING'' then colorYellow
      else if level = ''ERROR'' then colorRed
      else if level = ''DEBUG'' then colorCyan
      else if level = ''SUCCESS'' then colorGreen
      else if level = ''USERINPUT'' then colorReset
      else if level = ''LOADING'' then colorCyan
      else colorReset)"

definition level_emoji :: "string \<Rightarrow> string" where
  "level_emoji level =
     (if level = ''INFO'' then emojiInfo
      else if level = ''WARNING'' then emojiWarning
      else if level = ''ERROR'' then emojiError
      else if level = ''DEBUG'' then emojiDebug
      else if level = ''SUCCESS'' then emojiSuccess
      else if level = ''USERINPUT'' then emojiInput
      else if level = ''LOADING'' then emojiLoading
      else [])"

text \<open>\<^verbatim>\<open>logMessage(level, message)\<close>. The argument \<open>now\<close> is the value of
  \<^verbatim>\<open>time.Now().Format("2006-01-02 15:04:05")\<close> at the call. The result is the list of
  printing calls made: none when output is suppressed, otherwise one, through
  \<^verbatim>\<open>log.Println\<close> for every level but \<^verbatim>\<open>USERINPUT\<close>, which uses \<^verbatim>\<open>fmt.Print\<close>.\<close>

definition logMessage :: "flags \<Rightarrow> string \<Rightarrow> string \<Rightarrow> string \<Rightarrow> out_event list" where
  "logMessage fl now level message =
     (if SuppressOutput fl then []
      else
        let color = (if \<not> ColorsEnabled fl then [] else level_color level);
            emoji = level_emoji level;
            formattedMessage =
              color @ ''['' @ now @ '']'' @ colorReset @ '' ['' @ emoji @ ''] '' @ message
        in if level \<noteq> ''USERINPUT'' then [LogPrintln formattedMessage]
           else [FmtPrint formattedMessage])"

text \<open>\<^verbatim>\<open>slogMessage(level, message)\<close>: the string-returning formatter. It never adds an
  escape sequence.\<close>

definition slogMessage :: "flags \<Rightarrow> string \<Rightarrow> string \<Rightarrow> string \<Rightarrow> string" where
  "slogMessage fl now level message =
     (if SuppressOutput fl then []
      else ''['' @ now @ ''] ['' @ level_emoji level @ ''] '' @ message)"

subsection \<open>The levelled entry points\<close>

text \<open>The entry points take Go's \<^verbatim>\<open>...any\<close>. The element type \<open>'a\<close> stands for
  \<^verbatim>\<open>any\<close>; the three routines of package \<^verbatim>\<open>fmt\<close> that the entry points call are
  parameters: \<open>Sprint\<close> and \<open>Sprintf\<close>, and \<open>box\<close>, the conversion of a string
  to \<^verbatim>\<open>any\<close> that happens when a formatted variant passes its string on.\<close>

record 'a fmt =
  Sprint :: "'a list \<Rightarrow> string"
  Sprintf :: "string \<Rightarrow> 'a list \<Rightarrow> string"
  box :: "string \<Rightarrow> 'a"

definition Info :: "flags \<Rightarrow> 'a fmt \<Rightarrow> string \<Rightarrow> 'a list \<Rightarrow> out_event list" where
  "Info fl F now args = logMessage fl now ''INFO'' (Sprint F args)"

definition Sinfo :: "flags \<Rightarrow> 'a fmt \<Rightarrow> string \<Rightarrow> 'a list \<Rightarrow> string" where
  "Sinfo fl F now args = slogMessage fl now ''INFO'' (Sprint F args)"

definition Infof :: "flags \<Rightarrow> 'a fmt \<Rightarrow> string \<Rightarrow> string \<Rightarrow> 'a list \<Rightarrow> out_event list" where
  "Infof fl F now format a = Info fl F now [box F (Sprintf F format a)]"

definition Sinfof :: "flags \<Rightarrow> 'a fmt \<Rightarrow> string \<Rightarrow> string \<Rightarrow> 'a list \<Rightarrow> string" where
  "Sinfof fl F now format a = Sinfo fl F now [box F (Sprintf F format a)]"

definition Warning :: "flags \<Rightarrow> 'a fmt \<Rightarrow> string \<Rightarrow> 'a list \<Rightarrow> out_event list" where
  "Warning fl F now args = logMessage fl now ''WARNING'' (Sprint F args)"

definition Swarning :: "flags \<Rightarrow> 'a fmt \<Rightarrow> string \<Rightarrow> 'a list \<Rightarrow> string" where
  "Swarning fl F now args = slogMessage fl now ''WARNING'' (Sprint F args)"

definition Warningf :: "flags \<Rightarrow> 'a fmt \<Rightarrow> string \<Rightarrow> string \<Rightarrow> 'a list \<Rightarrow> out_event list" where
  "Warningf fl F now format a = Warning fl F now [box F (Sprintf F format a)]"

definition Swarningf :: "flags \<Rightarrow> 'a fmt \<Rightarrow> string \<Rightarrow> string \<Rightarrow> 'a list \<Rightarrow> string" where
  "Swarningf fl F now format a = Swarning fl F now [box F (Sprintf F format a)]"

definition Error :: "flags \<Rightarrow> 'a fmt \<Rightarrow> string \<Rightarrow> 'a list \<Rightarrow> out_event list" where
  "Error fl F now args = logMessage fl now ''ERROR'' (Sprint F args)"

definition Serror :: "flags \<Rightarrow> 'a fmt \<Rightarrow> string \<Rightarrow> 'a list \<Rightarrow> string" where
  "Serror fl F now args = slogMessage fl now ''ERROR'' (Sprint F args)"

definition Errorf :: "flags \<Rightarrow> 'a fmt \<Rightarrow> string \<Rightarrow> string \<Rightarrow> 'a list \<Rightarrow> out_event list" where
  "Errorf fl F now format a = Error fl F now [box F (Sprintf F format a)]"

definition Serrorf :: "flags \<Rightarrow> 'a fmt \<Rightarrow> string \<Rightarrow> string \<Rightarrow> 'a list \<Rightarrow> string" where
  "Serrorf fl F now format a = Serror fl F now [box F (Sprintf F format a)]"

text \<open>The debug entry points test \<^verbatim>\<open>DebugEnabled\<close> themselves; the formatted ones test
  it before formatting and again inside the call they delegate to.\<close>

definition Debug :: "flags \<Rightarrow> 'a fmt \<Rightarrow> string \<Rightarrow> 'a list \<Rightarrow> out_event list" where
  "Debug fl F now args =
     (if DebugEnabled fl then logMessage fl now ''DEBUG'' (Sprint F args) else [])"

definition Sdebug :: "flags \<Rightarrow> 'a fmt \<Rightarrow> string \<Rightarrow> 'a list \<Rightarrow> string" where
  "Sdebug fl F now args =
     (if DebugEnabled fl then slogMessage fl now ''DEBUG'' (Sprint F args) else [])"

definition Debugf :: "flags \<Rightarrow> 'a fmt \<Rightarrow> string \<Rightarrow> string \<Rightarrow> 'a list \<Rightarrow> out_event list" where
  "Debugf fl F now format a =
     (if DebugEnabled fl then Debug fl F now [box F (Sprintf F format a)] else [])"

definition Sdebugf :: "flags \<Rightarrow> 'a fmt \<Rightarrow> string \<Rightarrow> string \<Rightarrow> 'a list \<Rightarrow> string" where
  "Sdebugf fl F now format a =
     (if DebugEnabled fl then Sdebug fl F now [box F (Sprintf F format a)] else [])"

definition Success :: "flags \<Rightarrow> 'a fmt \<Rightarrow> string \<Rightarrow> 'a list \<Rightarrow> out_event list" where
  "Success fl F now args = logMessage fl now ''SUCCESS'' (Sprint F args)"

definition Ssuccess :: "flags \<Rightarrow> 'a fmt \<Rightarrow> string \<Rightarrow> 'a list \<Rightarrow> string" where
  "Ssuccess fl F now args = slogMessage fl now ''SUCCESS'' (Sprint F args)"

definition Successf :: "flags \<Rightarrow> 'a fmt \<Rightarrow> string \<Rightarrow> string \<Rightarrow> 'a list \<Rightarrow> out_event list" where
  "Successf fl F now format a = Success fl F now [box F (Sprintf F format a)]"

definition Ssuccessf :: "flags \<Rightarrow> 'a fmt \<Rightarrow> string \<Rightarrow> string \<Rightarrow> 'a list \<Rightarrow> string" where
  "Ssuccessf fl F now format a = Ssuccess fl F now [box F (Sprintf F format a)]"

subsection \<open>Standard input and the line scanner\<close>

text \<open>\<^verbatim>\<open>bufio.Scanner\<close> and \<^verbatim>\<open>os.Stdin\<close> belong to the Go standard library, not to
  this package. They are modelled here as far as the two prompt functions use them.
  Standard input is a list of portions of bytes as they become available, each with the
  error that reading reports once the portion is used up, if any. A \<^verbatim>\<open>Read\<close> takes
  as much of the first portion as the free part of the scanner's buffer holds. When the
  list is used up the next \<^verbatim>\<open>Read\<close> reports end of file.

  The scanner state keeps the unconsumed bytes of its buffer (\<open>buf\<close>, the slice from
  \<^verbatim>\<open>start\<close> to \<^verbatim>\<open>end\<close>), the offset \<open>start\<close> at which they lie, the length
  \<open>cap\<close> of the buffer, the sticky error and the rest of the input. The buffer starts
  empty, grows by doubling from 4096 bytes and never beyond the maximal token size of
  64 KiB; a buffer of that size that is full and holds no token ends the scan with
  \<^verbatim>\<open>ErrTooLong\<close>. A portion of no bytes and no error is just followed by the next
  one: the scanner's giving up after a hundred empty reads in a row is left out.\<close>

datatype io_error = EOF | ErrTooLong | ErrNoProgress | ReadError string

type_synonym reader = "(string \<times> io_error option) list"

record scanner =
  buf :: string
  start :: nat
  cap :: nat
  err :: "io_error option"
  src :: reader

definition maxTokenSize :: nat where
  "maxTokenSize = 64 * 1024"

definition startBufSize :: nat where
  "startBufSize = 4096"

definition NewScanner :: "reader \<Rightarrow> scanner" where
  "NewScanner r = \<lparr>buf = [], start = 0, cap = 0, err = None, src = r\<rparr>"

definition dropCR :: "string \<Rightarrow> string" where
  "dropCR data = (if data \<noteq> [] \<and> last data = CHR 0x0D then butlast data else data)"

text \<open>The split function \<^verbatim>\<open>bufio.ScanLines\<close>: how far to advance and the token found,
  if any.\<close>

definition ScanLines :: "string \<Rightarrow> bool \<Rightarrow> nat \<times> string option" where
  "ScanLines data atEOF =
     (if atEOF \<and> data = [] then (0, None)
      else if CHR 0x0A \<in> set data then
        (let i = length (takeWhile (\<lambda>c. c \<noteq> CHR 0x0A) data)
         in (i + 1, Some (dropCR (take i data))))
      else if atEOF then (length data, Some (dropCR data))
      else (0, None))"

text \<open>Making room before a read: the unconsumed bytes are moved to the front of the
  buffer when it is used up to its end or more than half of it lies before them; a
  buffer that is then full is replaced by one of twice the size.\<close>

definition shift :: "scanner \<Rightarrow> scanner" where
  "shift s =
     (if start s > 0 \<and> (start s + length (buf s) = cap s \<or> start s > cap s div 2)
      then s\<lparr>start := 0\<rparr> else s)"

definition full :: "scanner \<Rightarrow> bool" where
  "full s = (start s + length (buf s) = cap s)"

definition grow :: "scanner \<Rightarrow> scanner" where
  "grow s =
     (let newSize = cap s * 2;
          newSize = (if newSize = 0 then startBufSize else newSize);
          newSize = min newSize maxTokenSize
      in s\<lparr>cap := newSize, start := 0\<rparr>)"

text \<open>One \<^verbatim>\<open>Read\<close> into the free part of the buffer. A read that can take no byte of
  a portion that has some makes no progress.\<close>

definition read_more :: "scanner \<Rightarrow> scanner" where
  "read_more s =
     (case src s of
        [] \<Rightarrow> s\<lparr>err := Some EOF\<rparr>
      | (d, e) # rest \<Rightarrow>
          (let k = cap s - (start s + length (buf s))
           in if length d \<le> k then s\<lparr>buf := buf s @ d, err := e, src := rest\<rparr>
              else if k = 0 then s\<lparr>err := Some ErrNoProgress\<rparr>
              else s\<lparr>buf := buf s @ take k d, src := (drop k d, e) # rest\<rparr>))"

text \<open>What is left to read: the measure by which \<^verbatim>\<open>Scan\<close> terminates.\<close>

definition unread :: "scanner \<Rightarrow> nat" where
  "unread s = sum_list (map (\<lambda>r. length (fst r)) (src s)) + 2 * length (src s)
                + (if err s = None then 1 else 0)"

lemma unread_shift: "unread (shift s) = unread s"
  and unread_grow: "unread (grow s) = unread s"
  by (simp_all add: unread_def shift_def grow_def Let_def)

lemma err_shift: "err (shift s) = err s"
  and err_grow: "err (grow s) = err s"
  by (simp_all add: shift_def grow_def Let_def)

lemma unread_read_more: "err s = None \<Longrightarrow> unread (read_more s) < unread s"
  by (auto simp: unread_def read_more_def Let_def split: list.splits)

lemma unread_after_shift: "err s = None \<Longrightarrow> unread (read_more (shift s)) < unread s"
  using unread_read_more [of "shift s"] by (simp add: err_shift unread_shift)

lemma unread_after_grow: "err s = None \<Longrightarrow> unread (read_more (grow (shift s))) < unread s"
  using unread_read_more [of "grow (shift s)"]
  by (simp add: err_shift err_grow unread_shift unread_grow)

text \<open>\<^verbatim>\<open>Scanner.Scan\<close>: \<open>Some token\<close> when it returns true, with the token that
  \<^verbatim>\<open>Text\<close> then yields, and \<open>None\<close> when it returns false. A token is looked for in
  the buffer first; only when there is none is more input read, and once an error (or
  end of file) has been met nothing is read any more. \<^verbatim>\<open>ScanLines\<close> advances by 0
  whenever it finds no token, so the buffer is left as it is on that path.\<close>

function Scan :: "scanner \<Rightarrow> string option \<times> scanner" where
  "Scan s =
     (case (if buf s \<noteq> [] \<or> err s \<noteq> None then ScanLines (buf s) (err s \<noteq> None)
            else (0, None)) of
        (advance, Some token) \<Rightarrow>
          (Some token, s\<lparr>buf := drop advance (buf s), start := start s + advance\<rparr>)
      | (advance, None) \<Rightarrow>
          (if err s \<noteq> None then (None, s\<lparr>buf := [], start := 0\<rparr>)
           else if full (shift s) then
             (if maxTokenSize \<le> cap (shift s) then (None, (shift s)\<lparr>err := Some ErrTooLong\<rparr>)
              else Scan (read_more (grow (shift s))))
           else Scan (read_more (shift s))))"
  by pat_completeness auto
termination
  by (relation "measure unread") (auto intro: unread_after_shift unread_after_grow)

declare Scan.simps [simp del]

text \<open>\<^verbatim>\<open>Scanner.Err\<close>: the first error met, except that end of file is no error.\<close>

definition Err :: "scanner \<Rightarrow> io_error option" where
  "Err s = (if err s = Some EOF then None else err s)"

text \<open>The text of an error value, as \<^verbatim>\<open>log.Println\<close> prints it.\<close>

fun error_text :: "io_error \<Rightarrow> string" where
  "error_text EOF = ''EOF''"
| "error_text ErrTooLong = ''bufio.Scanner: token too long''"
| "error_text ErrNoProgress = ''multiple Read calls return no data or error''"
| "error_text (ReadError e) = e"

text \<open>The number of input bytes a scanner has not consumed yet.\<close>

definition pending :: "scanner \<Rightarrow> nat" where
  "pending s = length (buf s) + sum_list (map (\<lambda>r. length (fst r)) (src s))"

subsection \<open>Prompts\<close>

text \<open>\<^verbatim>\<open>UserInput(promptMessage, userInput)\<close>. The last argument is the value held by
  \<^verbatim>\<open>*userInput\<close> before the call; the result is the printing calls made and the value
  held afterwards.\<close>

definition UserInput ::
  "flags \<Rightarrow> string \<Rightarrow> string \<Rightarrow> reader \<Rightarrow> string \<Rightarrow> out_event list \<times> string" where
  "UserInput fl now promptMessage stdin userInput =
     (let out = logMessage fl now ''USERINPUT'' promptMessage;
          (tok, s) = Scan (NewScanner stdin);
          userInput' = (case tok of Some text \<Rightarrow> text | None \<Rightarrow> userInput)
      in case Err s of
           Some e \<Rightarrow> (out @ [LogPrintln (''Error reading input: '' @ error_text e)], userInput')
         | None \<Rightarrow> (out, userInput'))"

text \<open>\<^verbatim>\<open>Scan\<close> case by case, and the fact that every token it returns consumes at least
  one byte of input. This is what makes the reading loop of \<^verbatim>\<open>MUserInput\<close>
  terminate.\<close>

lemma length_takeWhile_neq:
  "x \<in> set xs \<Longrightarrow> length (takeWhile (\<lambda>c. c \<noteq> x) xs) < length xs"
  by (induction xs) auto

lemma takeWhile_absent: "x \<notin> set b \<Longrightarrow> takeWhile (\<lambda>c. c \<noteq> x) b = b"
  by (induction b) auto

lemma ScanLines_newline:
  "CHR 0x0A \<in> set b \<Longrightarrow>
   ScanLines b atEOF =
     (Suc (length (takeWhile (\<lambda>c. c \<noteq> CHR 0x0A) b)),
      Some (dropCR (takeWhile (\<lambda>c. c \<noteq> CHR 0x0A) b)))"
  by (auto simp: ScanLines_def Let_def takeWhile_eq_take [symmetric])

lemma ScanLines_final:
  "CHR 0x0A \<notin> set b \<Longrightarrow> b \<noteq> [] \<Longrightarrow> ScanLines b True = (length b, Some (dropCR b))"
  by (auto simp: ScanLines_def)

lemma ScanLines_more: "CHR 0x0A \<notin> set b \<Longrightarrow> ScanLines b False = (0, None)"
  by (auto simp: ScanLines_def)

lemma ScanLines_empty: "ScanLines [] True = (0, None)"
  by (simp add: ScanLines_def)

lemma Scan_found:
  "CHR 0x0A \<in> set (buf s) \<Longrightarrow>
   Scan s = (Some (dropCR (takeWhile (\<lambda>c. c \<noteq> CHR 0x0A) (buf s))),
             s\<lparr>buf := drop (Suc (length (takeWhile (\<lambda>c. c \<noteq> CHR 0x0A) (buf s)))) (buf s),
               start := start s + Suc (length (takeWhile (\<lambda>c. c \<noteq> CHR 0x0A) (buf s)))\<rparr>)"
  by (subst Scan.simps) (auto simp: ScanLines_newline simp del: not_None_eq)

lemma Scan_last:
  "CHR 0x0A \<notin> set (buf s) \<Longrightarrow> buf s \<noteq> [] \<Longrightarrow> err s = Some e \<Longrightarrow>
   Scan s = (Some (dropCR (buf s)), s\<lparr>buf := [], start := start s + length (buf s)\<rparr>)"
  by (subst Scan.simps) (simp add: ScanLines_final)

lemma Scan_done:
  "buf s = [] \<Longrightarrow> err s = Some e \<Longrightarrow> Scan s = (None, s\<lparr>buf := [], start := 0\<rparr>)"
  by (subst Scan.simps) (simp add: ScanLines_empty)

lemma Scan_more:
  "CHR 0x0A \<notin> set (buf s) \<Longrightarrow> err s = None \<Longrightarrow>
   Scan s =
     (if full (shift s) then
        (if maxTokenSize \<le> cap (shift s) then (None, (shift s)\<lparr>err := Some ErrTooLong\<rparr>)
         else Scan (read_more (grow (shift s))))
      else Scan (read_more (shift s)))"
  by (subst Scan.simps) (simp add: ScanLines_more)

lemma pending_shift: "pending (shift s) = pending s"
  and pending_grow: "pending (grow s) = pending s"
  by (simp_all add: pending_def shift_def grow_def Let_def)

lemma pending_read_more: "pending (read_more s) = pending s"
proof (cases "src s")
  case Nil
  then show ?thesis by (simp add: pending_def read_more_def)
next
  case (Cons r rest)
  obtain d e where "r = (d, e)" by (cases r)
  with Cons show ?thesis
    by (simp add: pending_def read_more_def Let_def)
qed

lemma Scan_pending: "Scan s = (Some t, s') \<Longrightarrow> pending s' < pending s"
proof (induction "unread s" arbitrary: s rule: less_induct)
  case less
  show ?case
  proof (cases "CHR 0x0A \<in> set (buf s)")
    case True
    with less.prems Scan_found [OF True] length_takeWhile_neq [OF True] show ?thesis
      by (auto simp: pending_def)
  next
    case nonl: False
    show ?thesis
    proof (cases "err s")
      case (Some e)
      show ?thesis
      proof (cases "buf s = []")
        case True
        with less.prems Scan_done [OF True Some] show ?thesis by simp
      next
        case False
        with less.prems Scan_last [OF nonl False Some] show ?thesis
          by (auto simp: pending_def)
      qed
    next
      case None
      note step = Scan_more [OF nonl None]
      show ?thesis
      proof (cases "full (shift s)")
        case True
        show ?thesis
        proof (cases "maxTokenSize \<le> cap (shift s)")
          case True
          with \<open>full (shift s)\<close> step less.prems show ?thesis by simp
        next
          case False
          with \<open>full (shift s)\<close> step less.prems
          have "Scan (read_more (grow (shift s))) = (Some t, s')" by simp
          from less.hyps [OF unread_after_grow [OF None] this]
          show ?thesis by (simp add: pending_read_more pending_grow pending_shift)
        qed
      next
        case False
        with step less.prems have "Scan (read_more (shift s)) = (Some t, s')" by simp
        from less.hyps [OF unread_after_shift [OF None] this]
        show ?thesis by (simp add: pending_read_more pending_shift)
      qed
    qed
  qed
qed

text \<open>The loop of \<^verbatim>\<open>MUserInput\<close>: scan lines and append each, with a newline, to
  \<open>input\<close> until \<^verbatim>\<open>Scan\<close> returns false or yields the empty line.\<close>

function read_lines :: "scanner \<Rightarrow> string \<Rightarrow> string \<times> scanner" where
  "read_lines s input =
     (case Scan s of
        (None, s') \<Rightarrow> (input, s')
      | (Some line, s') \<Rightarrow>
          if line = [] then (input, s') else read_lines s' (input @ line @ [CHR 0x0A]))"
  by pat_completeness auto
termination
  by (relation "measure (\<lambda>(s, input). pending s)") (auto dest: Scan_pending [OF sym])

declare read_lines.simps [simp del]

text \<open>\<^verbatim>\<open>MUserInput(promptMessage, userInput)\<close>. After the loop a scanner error is
  logged and the function returns at once, before the assignment to \<^verbatim>\<open>*userInput\<close>.\<close>

definition MUserInput ::
  "flags \<Rightarrow> string \<Rightarrow> string \<Rightarrow> reader \<Rightarrow> string \<Rightarrow> out_event list \<times> string" where
  "MUserInput fl now promptMessage stdin userInput =
     (let out = logMessage fl now ''USERINPUT'' promptMessage;
          (input, s) = read_lines (NewScanner stdin) []
      in case Err s of
           Some e \<Rightarrow> (out @ [LogPrintln (''Error reading input: '' @ error_text e)], userInput)
         | None \<Rightarrow> (out, input))"

subsection \<open>Option selector\<close>

text \<open>A key binding is the list of key names it answers to; \<^verbatim>\<open>key.Matches\<close> tests
  whether the name of the pressed key is among them. Help texts play no part in the
  behaviour and are left out. So are \<^verbatim>\<open>View\<close> and the package-level styles that
  \<^verbatim>\<open>updateStyles\<close> sets on a resize: only \<^verbatim>\<open>View\<close> reads them.\<close>

record keyMap =
  Up :: "string list"
  Down :: "string list"
  Enter :: "string list"
  Quit :: "string list"

definition newKeyMap :: keyMap where
  "newKeyMap = \<lparr>Up = [''up'', ''k''], Down = [''down'', ''j''], Enter = [''enter''],
                Quit = [''q'', ''esc'', ''ctrl+c'']\<rparr>"

definition Matches :: "string \<Rightarrow> string list \<Rightarrow> bool" where
  "Matches k binding = (k \<in> set binding)"

text \<open>The struct \<^verbatim>\<open>option\<close>; its fields are prefixed because the model has a
  \<^verbatim>\<open>title\<close> of its own.\<close>

record menu_option =
  opt_title :: string
  opt_desc :: string

record model =
  options :: "menu_option list"
  cursor :: int
  selected :: int
  title :: string
  keys :: keyMap
  choice :: string
  quitting :: bool
  width :: int
  height :: int
  centerItems :: bool

text \<open>\<^verbatim>\<open>initialModel\<close>. Its second argument is a Go map, and the order in which
  \<^verbatim>\<open>range\<close> visits a map is not fixed: the argument here is the list of the entries
  in the order in which this execution visits them. \<open>range_order\<close> says that a list is
  one of the possible orders of a map, given as its finite set of entries.\<close>

definition range_order :: "(string \<times> string) set \<Rightarrow> (string \<times> string) list \<Rightarrow> bool" where
  "range_order entries es = (distinct es \<and> set es = entries)"

definition initialModel :: "string \<Rightarrow> (string \<times> string) list \<Rightarrow> bool \<Rightarrow> model" where
  "initialModel ttl optionsDescs center =
     \<lparr>options = map (\<lambda>(key, value). \<lparr>opt_title = key, opt_desc = value\<rparr>) optionsDescs,
      cursor = 0, selected = - 1, title = ttl, keys = newKeyMap, choice = [],
      quitting = False, width = 0, height = 0, centerItems = center\<rparr>"

datatype msg = WindowSizeMsg int int | KeyMsg string | OtherMsg

datatype cmd = tea_nil | tea_Quit

datatype panic = IndexOutOfRange | CloseOfClosedChannel

text \<open>\<^verbatim>\<open>model.Update\<close>. The key cases are tried in the order of the source. The
  enter case indexes \<^verbatim>\<open>m.options[m.cursor]\<close>, which panics in Go when the index is out
  of range; that is the \<open>Inl\<close> result.\<close>

fun Update :: "model \<Rightarrow> msg \<Rightarrow> panic + model \<times> cmd" where
  "Update m (WindowSizeMsg w h) = Inr (m\<lparr>width := w, height := h\<rparr>, tea_nil)"
| "Update m (KeyMsg k) =
     (if Matches k (Quit (keys m)) then Inr (m\<lparr>quitting := True\<rparr>, tea_Quit)
      else if Matches k (Up (keys m)) then
        Inr (if cursor m > 0 then m\<lparr>cursor := cursor m - 1\<rparr> else m, tea_nil)
      else if Matches k (Down (keys m)) then
        Inr (if cursor m < int (length (options m)) - 1 then m\<lparr>cursor := cursor m + 1\<rparr>
             else m, tea_nil)
      else if Matches k (Enter (keys m)) then
        (if 0 \<le> cursor m \<and> cursor m < int (length (options m)) then
           Inr (m\<lparr>selected := cursor m,
                  choice := opt_title (options m ! nat (cursor m)),
                  quitting := True\<rparr>, tea_Quit)
         else Inl IndexOutOfRange)
      else Inr (m, tea_nil))"
| "Update m OtherMsg = Inr (m, tea_nil)"

text \<open>Applying \<^verbatim>\<open>Update\<close> to a sequence of messages, whatever command each step
  returns.\<close>

fun updates :: "model \<Rightarrow> msg list \<Rightarrow> panic + model" where
  "updates m [] = Inr m"
| "updates m (x # xs) =
     (case Update m x of Inl p \<Rightarrow> Inl p | Inr (m', c) \<Rightarrow> updates m' xs)"

text \<open>The event loop of the terminal runtime, \<^verbatim>\<open>Program.Run\<close>, on the messages that
  arrive. Each goes through \<^verbatim>\<open>Update\<close>. The quit command that \<^verbatim>\<open>Update\<close> returns
  does not end the loop by itself: the runtime runs it aside and the loop ends when the
  quit message it produces comes back. Messages that arrive ahead of that message still
  go through \<^verbatim>\<open>Update\<close>; \<open>lag\<close> is their number, which the scheduling decides, and
  \<open>drain\<close> is this last stretch of the loop. When the messages run out first the quit
  message is the next to arrive.

  The runtime recovers a panic raised inside \<^verbatim>\<open>Update\<close>, and \<^verbatim>\<open>Run\<close> then returns
  an error. The argument \<open>failure\<close> says what happens once the messages have run out
  with no quit under way: \<open>Some e\<close> when the runtime then fails with the error \<open>e\<close>, and
  \<open>None\<close> when it goes on waiting, so that \<^verbatim>\<open>Run\<close> has not returned (the result
  \<open>None\<close>).\<close>

definition panic_error :: string where
  "panic_error = ''program was killed: program experienced a panic''"

fun drain :: "model \<Rightarrow> msg list \<Rightarrow> nat \<Rightarrow> model \<times> string option" where
  "drain m xs 0 = (m, None)"
| "drain m [] (Suc n) = (m, None)"
| "drain m (x # xs) (Suc n) =
     (case Update m x of
        Inl p \<Rightarrow> (m, Some panic_error)
      | Inr (m', c) \<Rightarrow> drain m' xs n)"

fun Run :: "model \<Rightarrow> msg list \<Rightarrow> string option \<Rightarrow> nat \<Rightarrow> (model \<times> string option) option" where
  "Run m [] failure lag = (case failure of None \<Rightarrow> None | Some e \<Rightarrow> Some (m, Some e))"
| "Run m (x # xs) failure lag =
     (case Update m x of
        Inl p \<Rightarrow> Some (m, Some panic_error)
      | Inr (m', c) \<Rightarrow> if c = tea_Quit then Some (drain m' xs lag) else Run m' xs failure lag)"

text \<open>\<^verbatim>\<open>SelectOption\<close>: the pair returned is the choice and the error, \<open>None\<close> for
  \<^verbatim>\<open>nil\<close> and otherwise the text of the error. An error of the runtime is returned
  as it is, with the empty string.\<close>

definition SelectOption ::
  "string \<Rightarrow> (string \<times> string) list \<Rightarrow> bool \<Rightarrow> msg list \<Rightarrow> string option \<Rightarrow> nat
     \<Rightarrow> (string \<times> string option) option" where
  "SelectOption ttl optionsDescs center msgs failure lag =
     (case Run (initialModel ttl optionsDescs center) msgs failure lag of
        None \<Rightarrow> None
      | Some (m, Some e) \<Rightarrow> Some ([], Some e)
      | Some (m, None) \<Rightarrow>
          if selected m \<noteq> - 1 then Some (choice m, None)
          else Some ([], Some ''no option was selected''))"

subsection \<open>Spinner\<close>

text \<open>The stop channel carries no values; all that matters is whether it has been
  closed. Closing a closed channel panics.\<close>

datatype chan = Open | Closed

record Spinner =
  stopChan :: chan
  message :: string

definition NewSpinner :: "string \<Rightarrow> Spinner" where
  "NewSpinner msg = \<lparr>stopChan = Open, message = msg\<rparr>"

fun close :: "chan \<Rightarrow> panic + chan" where
  "close Open = Inr Closed"
| "close Closed = Inl CloseOfClosedChannel"

text \<open>\<^verbatim>\<open>Spinner.Stop\<close>: close the channel, then print a carriage return and a
  newline.\<close>

definition Stop :: "Spinner \<Rightarrow> panic + Spinner \<times> out_event list" where
  "Stop s =
     (case close (stopChan s) of
        Inl p \<Rightarrow> Inl p
      | Inr c \<Rightarrow> Inr (s\<lparr>stopChan := c\<rparr>, [FmtPrint [CHR 0x0D, CHR 0x0A]]))"

definition frames :: "string list" where
  "frames = [''|'', ''/'', ''-'', [CHR 0x5C]]"

text \<open>One \<^verbatim>\<open>select\<close> of the task that \<^verbatim>\<open>Start\<close> launches: when the channel is closed
  the receive succeeds and the task returns (\<open>None\<close>); otherwise it prints the frame and
  goes on.\<close>

definition spin_select :: "flags \<Rightarrow> string \<Rightarrow> Spinner \<Rightarrow> string \<Rightarrow> out_event list option" where
  "spin_select fl now s frame =
     (case stopChan s of
        Closed \<Rightarrow> None
      | Open \<Rightarrow>
          Some [FmtPrint (slogMessage fl now ''LOADING'' (frame @ '' '' @ message s @ [CHR 0x0D]))])"

subsection \<open>Auxiliary notions and sample inputs\<close>

text \<open>A message is a press of one of the keys of a binding.\<close>

fun is_key :: "string list \<Rightarrow> msg \<Rightarrow> bool" where
  "is_key binding (KeyMsg k) = Matches k binding"
| "is_key binding _ = False"

text \<open>The model of a selector without options, as any sequence of messages leaves it.\<close>

definition no_options :: "model \<Rightarrow> bool" where
  "no_options m = (options m = [] \<and> cursor m = 0 \<and> keys m = newKeyMap)"

text \<open>The cursor points at one of the options.\<close>

definition in_range :: "model \<Rightarrow> bool" where
  "in_range m = (0 \<le> cursor m \<and> cursor m \<le> int (length (options m)) - 1)"

text \<open>Flag settings, a stand-in for package \<^verbatim>\<open>fmt\<close> on string arguments, and the two
  orders in which \<^verbatim>\<open>range\<close> can visit the map with the entries A and B.\<close>

definition fl_quiet :: flags where
  "fl_quiet = \<lparr>DebugEnabled = True, ColorsEnabled = True, SuppressOutput = True\<rparr>"

definition fmt_strings :: "string fmt" where
  "fmt_strings = \<lparr>Sprint = concat, Sprintf = (\<lambda>format a. format @ concat a), box = (\<lambda>s. s)\<rparr>"

definition fl_plain :: flags where
  "fl_plain = \<lparr>DebugEnabled = False, ColorsEnabled = False, SuppressOutput = False\<rparr>"

definition fl_debug :: flags where
  "fl_debug = \<lparr>DebugEnabled = True, ColorsEnabled = True, SuppressOutput = False\<rparr>"

definition fl_debug_plain :: flags where
  "fl_debug_plain = \<lparr>DebugEnabled = True, ColorsEnabled = False, SuppressOutput = False\<rparr>"

definition menu_AB :: "(string \<times> string) list" where
  "menu_AB = [(''A'', ''descA''), (''B'', ''descB'')]"

definition menu_BA :: "(string \<times> string) list" where
  "menu_BA = [(''B'', ''descB''), (''A'', ''descA'')]"

subsection \<open>What the scanner has left to deliver\<close>

text \<open>The bytes that the input still holds for a scanner, and the error that ends it:
  the portions up to and including the first one that carries an error, and that error,
  end of file when there is none.\<close>

fun stream_data :: "reader \<Rightarrow> string" where
  "stream_data [] = []"
| "stream_data ((d, e) # rest) = d @ (case e of None \<Rightarrow> stream_data rest | Some x \<Rightarrow> [])"

fun stream_err :: "reader \<Rightarrow> io_error" where
  "stream_err [] = EOF"
| "stream_err ((d, e) # rest) = (case e of None \<Rightarrow> stream_err rest | Some x \<Rightarrow> x)"

text \<open>The same for a scanner at work: its buffer comes first, and once its error is set
  it reads no further. \<open>fits\<close> is the invariant of the buffer: the unconsumed bytes lie
  inside it, and it is no longer than the maximal token size.\<close>

definition avail :: "scanner \<Rightarrow> string" where
  "avail s = buf s @ (case err s of None \<Rightarrow> stream_data (src s) | Some x \<Rightarrow> [])"

definition final_err :: "scanner \<Rightarrow> io_error" where
  "final_err s = (case err s of None \<Rightarrow> stream_err (src s) | Some x \<Rightarrow> x)"

definition fits :: "scanner \<Rightarrow> bool" where
  "fits s = (start s + length (buf s) \<le> cap s \<and> cap s \<le> maxTokenSize)"

text \<open>The lines of a byte string, as \<^verbatim>\<open>ScanLines\<close> cuts them: each ends at a newline,
  the last at the end of the data, and one carriage return before the end of a line is
  dropped (\<open>raw_lines\<close> are the lines before that). \<open>short_lines\<close> says that every
  line is below the maximal token size. \<open>terminated_lines\<close> is the text that the
  specification of the multi-line prompt describes: the lines before the first empty
  one, each followed by a newline.\<close>

definition raw_line :: "string \<Rightarrow> string" where
  "raw_line data = takeWhile (\<lambda>c. c \<noteq> CHR 0x0A) data"

definition first_line :: "string \<Rightarrow> string" where
  "first_line data = dropCR (raw_line data)"

definition rest_lines :: "string \<Rightarrow> string" where
  "rest_lines data = drop (Suc (length (raw_line data))) data"

function raw_lines :: "string \<Rightarrow> string list" where
  "raw_lines data = (if data = [] then [] else raw_line data # raw_lines (rest_lines data))"
  by pat_completeness auto
termination
  by (relation "measure length") (auto simp: rest_lines_def)

declare raw_lines.simps [simp del]

definition stdin_lines :: "string \<Rightarrow> string list" where
  "stdin_lines data = map dropCR (raw_lines data)"

definition short_lines :: "string \<Rightarrow> bool" where
  "short_lines data = list_all (\<lambda>l. length l < maxTokenSize) (raw_lines data)"

definition terminated_lines :: "string \<Rightarrow> string" where
  "terminated_lines data =
     concat (map (\<lambda>l. l @ [CHR 0x0A]) (takeWhile (\<lambda>l. l \<noteq> []) (stdin_lines data)))"


definition stdin_partial :: reader where
  "stdin_partial = [(''hel'', None), ([], Some (ReadError ''input/output error''))]"

definition stdin_broken :: reader where
  "stdin_broken = [(''a'' @ [CHR 0x0A], None), ([], Some (ReadError ''input/output error''))]"



section \<open>Properties\<close>

subsection \<open>Logging\<close>

text \<open>C1: when \<^verbatim>\<open>SuppressOutput\<close> is true, a logging call of any level with any message
  makes no printing call at all, and every string-returning variant returns the empty
  string. This holds for the two formatters and for each of the entry points built on
  them, formatted or not.\<close>

theorem suppress_output_silences_every_level:
  assumes "SuppressOutput fl"
  shows "logMessage fl now level text = [] \<and> slogMessage fl now level text = []
    \<and> Info fl F now args = [] \<and> Infof fl F now format args = []
    \<and> Warning fl F now args = [] \<and> Warningf fl F now format args = []
    \<and> Error fl F now args = [] \<and> Errorf fl F now format args = []
    \<and> Debug fl F now args = [] \<and> Debugf fl F now format args = []
    \<and> Success fl F now args = [] \<and> Successf fl F now format args = []
    \<and> Sinfo fl F now args = [] \<and> Sinfof fl F now format args = []
    \<and> Swarning fl F now args = [] \<and> Swarningf fl F now format args = []
    \<and> Serror fl F now args = [] \<and> Serrorf fl F now format args = []
    \<and> Sdebug fl F now args = [] \<and> Sdebugf fl F now format args = []
    \<and> Ssuccess fl F now args = [] \<and> Ssuccessf fl F now format args = []"
  using assms
  by (simp add: logMessage_def slogMessage_def Info_def Infof_def Warning_def Warningf_def
      Error_def Errorf_def Debug_def Debugf_def Success_def Successf_def Sinfo_def Sinfof_def
      Swarning_def Swarningf_def Serror_def Serrorf_def Sdebug_def Sdebugf_def Ssuccess_def
      Ssuccessf_def)

theorem suppress_output_silences_every_level_witness:
  "SuppressOutput fl_quiet
   \<and> logMessage fl_quiet ''2024-05-01 12:00:00'' ''ERROR'' ''disk full'' = []
   \<and> slogMessage fl_quiet ''2024-05-01 12:00:00'' ''ERROR'' ''disk full'' = []
   \<and> Info fl_quiet fmt_strings ''2024-05-01 12:00:00'' [''disk'', ''full''] = []
   \<and> Ssuccessf fl_quiet fmt_strings ''2024-05-01 12:00:00'' ''done '' [''now''] = []"
proof -
  have h: "SuppressOutput fl_quiet" by (simp add: fl_quiet_def)
  show ?thesis
    using h suppress_output_silences_every_level
      [OF h, of "''2024-05-01 12:00:00''" "''ERROR''" "''disk full''" fmt_strings
         "[''disk'', ''full'']" "''done ''"]
      suppress_output_silences_every_level
      [OF h, of "''2024-05-01 12:00:00''" "''ERROR''" "''disk full''" fmt_strings
         "[''now'']" "''done ''"]
    by simp
qed

text \<open>The line that \<^verbatim>\<open>logMessage\<close> prints when output is not suppressed: with colours
  enabled the timestamp bracket stands between the colour of the level and the reset
  sequence.\<close>

lemma logMessage_line:
  "\<not> SuppressOutput fl \<Longrightarrow>
   logMessage fl now level text =
     [(if level \<noteq> ''USERINPUT'' then LogPrintln else FmtPrint)
        ((if ColorsEnabled fl then level_color level else []) @ ''['' @ now @ '']'' @ colorReset
           @ '' ['' @ level_emoji level @ ''] '' @ text)]"
  by (simp add: logMessage_def Let_def)

lemma level_color_table:
  "level_color ''INFO'' = colorMagenta" "level_color ''WARNING'' = colorYellow"
  "level_color ''ERROR'' = colorRed" "level_color ''DEBUG'' = colorCyan"
  "level_color ''SUCCESS'' = colorGreen" "level_color ''USERINPUT'' = colorReset"
  by (simp_all add: level_color_def)

text \<open>C2: with \<^verbatim>\<open>ColorsEnabled\<close> false the claim asks for a line free of escape
  sequences. \<^verbatim>\<open>logMessage\<close> blanks the colour but still formats \<^verbatim>\<open>colorReset\<close> after
  the timestamp bracket: for the level INFO, the message \<open>hi\<close> and a fixed clock, neither
  containing an escape character, the printed line contains one.\<close>

theorem colors_disabled_line_has_escape:
  "logMessage fl_plain ''2024-05-01 12:00:00'' ''INFO'' ''hi'' =
     [LogPrintln (''[2024-05-01 12:00:00]'' @ [ESC] @ ''[0m ['' @ emojiInfo @ ''] hi'')]
   \<and> ESC \<in> set (''[2024-05-01 12:00:00]'' @ [ESC] @ ''[0m ['' @ emojiInfo @ ''] hi'')
   \<and> ESC \<notin> set (''2024-05-01 12:00:00'' @ ''hi'')"
  by (simp add: logMessage_def fl_plain_def Let_def level_emoji_def colorReset_def ESC_def)

text \<open>The debug entry points are gated by \<^verbatim>\<open>DebugEnabled\<close>. Enabled and not
  suppressed, the string-returning ones give the timestamp in brackets, the emoji in
  brackets and the message, and with colours enabled the printing ones give the same
  line with the timestamp bracket between the colour of the level and the reset
  sequence.\<close>

lemma debug_calls_gated:
  "\<not> DebugEnabled fl \<Longrightarrow>
     Debug fl F now args = [] \<and> Debugf fl F now format args = []
     \<and> Sdebug fl F now args = [] \<and> Sdebugf fl F now format args = []"
  "DebugEnabled fl \<Longrightarrow> \<not> SuppressOutput fl \<Longrightarrow>
     Sdebug fl F now args = ''['' @ now @ ''] ['' @ emojiDebug @ ''] '' @ Sprint F args
     \<and> Sdebugf fl F now format args =
         ''['' @ now @ ''] ['' @ emojiDebug @ ''] '' @ Sprint F [box F (Sprintf F format args)]"
  "DebugEnabled fl \<Longrightarrow> \<not> SuppressOutput fl \<Longrightarrow> ColorsEnabled fl \<Longrightarrow>
     Debug fl F now args =
       [LogPrintln (colorCyan @ ''['' @ now @ '']'' @ colorReset @ '' ['' @ emojiDebug @ ''] ''
          @ Sprint F args)]"
  by (simp_all add: Debug_def Debugf_def Sdebug_def Sdebugf_def logMessage_def slogMessage_def
      Let_def level_color_def level_emoji_def)

text \<open>C9: with \<^verbatim>\<open>DebugEnabled\<close> true, output not suppressed and colours disabled, the
  line that \<^verbatim>\<open>Debug\<close> prints is not the timestamp in brackets, the emoji in brackets
  and the message: the reset sequence that \<^verbatim>\<open>logMessage\<close> formats after the timestamp
  bracket stands in it, although neither the clock nor the message holds an escape
  character. \<^verbatim>\<open>Sdebug\<close> returns the line without it.\<close>

theorem debug_line_has_escape_without_colors:
  "Debug fl_debug_plain fmt_strings ''2024-05-01 12:00:00'' [''x = '', ''1''] =
     [LogPrintln (''[2024-05-01 12:00:00]'' @ [ESC] @ ''[0m ['' @ emojiDebug @ ''] x = 1'')]
   \<and> ESC \<in> set (''[2024-05-01 12:00:00]'' @ [ESC] @ ''[0m ['' @ emojiDebug @ ''] x = 1'')
   \<and> ESC \<notin> set (''2024-05-01 12:00:00'' @ ''x = 1'')
   \<and> Sdebug fl_debug_plain fmt_strings ''2024-05-01 12:00:00'' [''x = '', ''1''] =
       ''[2024-05-01 12:00:00] ['' @ emojiDebug @ ''] x = 1''"
  by (simp add: Debug_def Sdebug_def logMessage_def slogMessage_def fl_debug_plain_def
      fmt_strings_def Let_def level_emoji_def colorReset_def ESC_def)

subsection \<open>Spinner\<close>

text \<open>C5: the first \<^verbatim>\<open>Stop\<close> on a new spinner succeeds: it closes the channel and
  prints a carriage return and a newline; the task, which was still printing frames,
  returns at its next \<^verbatim>\<open>select\<close>. A second \<^verbatim>\<open>Stop\<close> on the same spinner closes the
  closed channel, which is a panic.\<close>

theorem second_stop_closes_closed_channel:
  "Stop (NewSpinner msg) = Inr (\<lparr>stopChan = Closed, message = msg\<rparr>, [FmtPrint [CHR 0x0D, CHR 0x0A]])
   \<and> spin_select fl now (NewSpinner msg) frame \<noteq> None
   \<and> spin_select fl now \<lparr>stopChan = Closed, message = msg\<rparr> frame = None
   \<and> Stop \<lparr>stopChan = Closed, message = msg\<rparr> = Inl CloseOfClosedChannel"
  by (simp add: Stop_def NewSpinner_def spin_select_def)

subsection \<open>Option selector\<close>

text \<open>Without options the cursor stays at 0 whatever the message, unless the message is
  the enter key, which panics.\<close>

lemma Update_no_options:
  assumes "no_options m"
  shows "Update m x = Inl IndexOutOfRange \<or> (\<exists>m' c. Update m x = Inr (m', c) \<and> no_options m')"
  using assms by (cases x) (auto simp: no_options_def)

lemma enter_no_options: "no_options m \<Longrightarrow> Update m (KeyMsg ''enter'') = Inl IndexOutOfRange"
  by (auto simp: no_options_def newKeyMap_def Matches_def)

lemma updates_no_options:
  "no_options m \<Longrightarrow> updates m (msgs @ [KeyMsg ''enter'']) = Inl IndexOutOfRange"
proof (induction msgs arbitrary: m)
  case Nil
  from enter_no_options [OF Nil] show ?case by simp
next
  case (Cons x msgs)
  from Update_no_options [OF Cons.prems, of x] show ?case
  proof
    assume "Update m x = Inl IndexOutOfRange"
    then show ?thesis by simp
  next
    assume "\<exists>m' c. Update m x = Inr (m', c) \<and> no_options m'"
    then obtain m' c where "Update m x = Inr (m', c)" "no_options m'" by blast
    with Cons.IH [of m'] show ?thesis by simp
  qed
qed

text \<open>C10: on the model made from an empty map, the enter key makes \<^verbatim>\<open>Update\<close> index
  an empty list at the cursor 0: the outcome is the panic of an index out of range, not
  an error value. Whatever messages went through \<^verbatim>\<open>Update\<close> before, the enter key
  ends in that panic.\<close>

theorem enter_on_empty_options_panics:
  "Update (initialModel ttl [] center) (KeyMsg ''enter'') = Inl IndexOutOfRange
   \<and> updates (initialModel ttl [] center) (msgs @ [KeyMsg ''enter'']) = Inl IndexOutOfRange"
proof -
  have "no_options (initialModel ttl [] center)"
    by (simp add: no_options_def initialModel_def)
  then show ?thesis
    using enter_no_options updates_no_options by blast
qed

text \<open>Inside the event loop the runtime recovers this panic, and \<^verbatim>\<open>SelectOption\<close>
  returns the runtime's error.\<close>

lemma SelectOption_empty_enter:
  "SelectOption ttl [] center (KeyMsg ''enter'' # rest) failure lag = Some ([], Some panic_error)"
  by (simp add: SelectOption_def initialModel_def newKeyMap_def Matches_def)

text \<open>\<^verbatim>\<open>Update\<close> keeps the cursor on an option and never panics when it is on one.\<close>

lemma Update_in_range:
  assumes "in_range m"
  shows "\<exists>m' c. Update m x = Inr (m', c) \<and> in_range m' \<and> options m' = options m"
  using assms by (cases x) (auto simp: in_range_def)

lemma updates_in_range:
  "in_range m \<Longrightarrow> \<exists>m'. updates m xs = Inr m' \<and> in_range m' \<and> options m' = options m"
proof (induction xs arbitrary: m)
  case Nil
  then show ?case by simp
next
  case (Cons x xs)
  from Update_in_range [OF Cons.prems, of x] obtain m1 c
    where u: "Update m x = Inr (m1, c)" and r: "in_range m1" and o: "options m1 = options m"
    by blast
  from Cons.IH [OF r] o u show ?case by auto
qed

text \<open>C6: from the initial model of a non-empty option list, any sequence of messages
  goes through \<^verbatim>\<open>Update\<close> without a panic and leaves the cursor between 0 and the
  number of options minus one. An up key moves the cursor down by one only when it is
  above 0, and a down key moves it up by one only when it is below the last index.\<close>

theorem cursor_stays_within_options:
  "(optionsDescs \<noteq> [] \<longrightarrow>
      (\<exists>m'. updates (initialModel ttl optionsDescs center) msgs = Inr m'
         \<and> 0 \<le> cursor m' \<and> cursor m' \<le> int (length optionsDescs) - 1))
   \<and> (Matches k (Up (keys m)) \<and> \<not> Matches k (Quit (keys m)) \<longrightarrow>
        Update m (KeyMsg k) =
          Inr (if cursor m > 0 then m\<lparr>cursor := cursor m - 1\<rparr> else m, tea_nil))
   \<and> (Matches k (Down (keys m)) \<and> \<not> Matches k (Quit (keys m)) \<and> \<not> Matches k (Up (keys m)) \<longrightarrow>
        Update m (KeyMsg k) =
          Inr (if cursor m < int (length (options m)) - 1 then m\<lparr>cursor := cursor m + 1\<rparr>
               else m, tea_nil))"
proof -
  have "\<exists>m'. updates (initialModel ttl optionsDescs center) msgs = Inr m'
         \<and> 0 \<le> cursor m' \<and> cursor m' \<le> int (length optionsDescs) - 1"
    if ne: "optionsDescs \<noteq> []"
  proof -
    from ne have "in_range (initialModel ttl optionsDescs center)"
      by (cases optionsDescs) (simp_all add: in_range_def initialModel_def)
    from updates_in_range [OF this, of msgs] show ?thesis
      by (auto simp: in_range_def initialModel_def)
  qed
  then show ?thesis by simp
qed
theorem cursor_stays_within_options_witness:
  "menu_AB \<noteq> []
   \<and> (\<exists>m'. updates (initialModel ''pick'' menu_AB False)
               [KeyMsg ''down'', KeyMsg ''down'', WindowSizeMsg 80 24, KeyMsg ''up''] = Inr m'
         \<and> 0 \<le> cursor m' \<and> cursor m' \<le> int (length menu_AB) - 1)
   \<and> Matches ''k'' (Up (keys (initialModel ''pick'' menu_AB False)))
   \<and> Update (initialModel ''pick'' menu_AB False) (KeyMsg ''k'')
       = Inr (initialModel ''pick'' menu_AB False, tea_nil)
   \<and> Matches ''j'' (Down (keys (initialModel ''pick'' menu_AB False)))
   \<and> Update (initialModel ''pick'' menu_AB False) (KeyMsg ''j'')
       = Inr ((initialModel ''pick'' menu_AB False)\<lparr>cursor := 1\<rparr>, tea_nil)"
  using cursor_stays_within_options [of menu_AB "''pick''" False
      "[KeyMsg ''down'', KeyMsg ''down'', WindowSizeMsg 80 24, KeyMsg ''up'']" "''k''"
      "initialModel ''pick'' menu_AB False"]
    cursor_stays_within_options [of menu_AB "''pick''" False
      "[KeyMsg ''down'', KeyMsg ''down'', WindowSizeMsg 80 24, KeyMsg ''up'']" "''j''"
      "initialModel ''pick'' menu_AB False"]
  by (simp add: menu_AB_def initialModel_def newKeyMap_def Matches_def)

text \<open>A message that is neither a quit key nor the enter key leaves the selection alone
  and does not end the loop. A message that is not the enter key leaves the selection
  alone, also in the last stretch of the loop.\<close>

lemma Update_other_key:
  assumes "\<not> is_key (Quit (keys m)) x" "\<not> is_key (Enter (keys m)) x"
  shows "\<exists>m'. Update m x = Inr (m', tea_nil) \<and> selected m' = selected m \<and> keys m' = keys m"
  using assms by (cases x) auto

lemma Update_not_enter:
  assumes "\<not> is_key (Enter (keys m)) x"
  shows "\<exists>m' c. Update m x = Inr (m', c) \<and> selected m' = selected m \<and> keys m' = keys m
           \<and> (quitting m \<longrightarrow> quitting m')"
  using assms by (cases x) auto

lemma drain_Nil: "drain m [] n = (m, None)"
  by (cases n) simp_all

lemma drain_without_enter:
  "\<forall>x \<in> set (take n xs). \<not> is_key (Enter (keys m)) x \<Longrightarrow> quitting m \<Longrightarrow>
   \<exists>m'. drain m xs n = (m', None) \<and> selected m' = selected m \<and> quitting m'"
proof (induction n arbitrary: xs m)
  case 0
  then show ?case by simp
next
  case (Suc n)
  show ?case
  proof (cases xs)
    case Nil
    with Suc.prems show ?thesis by simp
  next
    case (Cons x rest)
    with Suc.prems(1) have "\<not> is_key (Enter (keys m)) x" by simp
    from Update_not_enter [OF this] Suc.prems(2) obtain m1 c
      where u: "Update m x = Inr (m1, c)" and s: "selected m1 = selected m"
        and k: "keys m1 = keys m" and q: "quitting m1" by blast
    from Suc.prems(1) Cons k have "\<forall>x \<in> set (take n rest). \<not> is_key (Enter (keys m1)) x"
      by simp
    from Suc.IH [OF this q] u s Cons show ?thesis by simp
  qed
qed

lemma Run_quit_without_enter:
  assumes "\<forall>x \<in> set pre. \<not> is_key (Quit (keys m)) x \<and> \<not> is_key (Enter (keys m)) x"
    and "Matches k (Quit (keys m))"
    and "\<forall>x \<in> set (take lag rest). \<not> is_key (Enter (keys m)) x"
  shows "\<exists>m'. Run m (pre @ KeyMsg k # rest) failure lag = Some (m', None)
           \<and> selected m' = selected m \<and> quitting m'"
  using assms
proof (induction pre arbitrary: m)
  case Nil
  let ?m = "m\<lparr>quitting := True\<rparr>"
  from Nil(3) have "\<forall>x \<in> set (take lag rest). \<not> is_key (Enter (keys ?m)) x" by simp
  from drain_without_enter [OF this] Nil(2) show ?case by auto
next
  case (Cons x pre)
  from Cons.prems(1) have "\<not> is_key (Quit (keys m)) x" "\<not> is_key (Enter (keys m)) x"
    by simp_all
  from Update_other_key [OF this] obtain m1
    where u: "Update m x = Inr (m1, tea_nil)" and s: "selected m1 = selected m"
      and k: "keys m1 = keys m" by blast
  from Cons.prems k
  have "\<forall>x \<in> set pre. \<not> is_key (Quit (keys m1)) x \<and> \<not> is_key (Enter (keys m1)) x"
    and "Matches k (Quit (keys m1))"
    and "\<forall>x \<in> set (take lag rest). \<not> is_key (Enter (keys m1)) x" by simp_all
  from Cons.IH [OF this] u s show ?case by simp
qed

text \<open>C7: let no enter key go through \<^verbatim>\<open>Update\<close> before the event loop ends on a quit
  key: none among the messages up to the first quit key, and none among those that
  still pass behind it before the loop ends. Then the loop ends with a model whose
  selected index is still -1, and \<^verbatim>\<open>SelectOption\<close> returns the empty string with the
  error "no option was selected".\<close>

theorem quit_without_selection_is_error:
  assumes "\<forall>x \<in> set pre. \<not> is_key (Quit newKeyMap) x \<and> \<not> is_key (Enter newKeyMap) x"
    and "Matches k (Quit newKeyMap)"
    and "\<forall>x \<in> set (take lag rest). \<not> is_key (Enter newKeyMap) x"
  shows "SelectOption ttl optionsDescs center (pre @ KeyMsg k # rest) failure lag
           = Some ([], Some ''no option was selected'')
         \<and> (\<exists>m'. Run (initialModel ttl optionsDescs center) (pre @ KeyMsg k # rest) failure lag
                  = Some (m', None)
               \<and> selected m' = - 1 \<and> quitting m')"
proof -
  have k: "keys (initialModel ttl optionsDescs center) = newKeyMap"
    and s: "selected (initialModel ttl optionsDescs center) = - 1"
    by (simp_all add: initialModel_def)
  from Run_quit_without_enter
    [of pre "initialModel ttl optionsDescs center" k lag rest failure] assms k s
  obtain m' where
    "Run (initialModel ttl optionsDescs center) (pre @ KeyMsg k # rest) failure lag
      = Some (m', None)"
    "selected m' = - 1" "quitting m'" by auto
  then show ?thesis by (simp add: SelectOption_def)
qed

theorem quit_without_selection_is_error_witness:
  "\<not> is_key (Quit newKeyMap) (WindowSizeMsg 80 24) \<and> \<not> is_key (Enter newKeyMap) (WindowSizeMsg 80 24)
   \<and> \<not> is_key (Quit newKeyMap) (KeyMsg ''down'') \<and> \<not> is_key (Enter newKeyMap) (KeyMsg ''down'')
   \<and> \<not> is_key (Quit newKeyMap) (KeyMsg ''up'') \<and> \<not> is_key (Enter newKeyMap) (KeyMsg ''up'')
   \<and> Matches ''esc'' (Quit newKeyMap)
   \<and> take 1 [KeyMsg ''down'', KeyMsg ''enter''] = [KeyMsg ''down'']
   \<and> SelectOption ''pick'' menu_AB True
        ([WindowSizeMsg 80 24, KeyMsg ''down'', KeyMsg ''up''] @ KeyMsg ''esc''
           # [KeyMsg ''down'', KeyMsg ''enter''])
        None 1
       = Some ([], Some ''no option was selected'')"
proof -
  have h1: "\<forall>x \<in> set [WindowSizeMsg 80 24, KeyMsg ''down'', KeyMsg ''up''].
       \<not> is_key (Quit newKeyMap) x \<and> \<not> is_key (Enter newKeyMap) x"
    by (simp add: newKeyMap_def Matches_def)
  have h2: "Matches ''esc'' (Quit newKeyMap)"
    by (simp add: newKeyMap_def Matches_def)
  have h3: "\<forall>x \<in> set (take 1 [KeyMsg ''down'', KeyMsg ''enter'']). \<not> is_key (Enter newKeyMap) x"
    by (simp add: newKeyMap_def Matches_def)
  from quit_without_selection_is_error
      [OF h1 h2 h3, of "''pick''" menu_AB True None]
    h1 h2
  show ?thesis by simp
qed

text \<open>An enter key that still passes behind the quit key does select: the hypothesis on
  the messages behind the quit key cannot be dropped.\<close>

lemma enter_behind_quit_selects:
  "SelectOption ''pick'' menu_AB True [KeyMsg ''esc'', KeyMsg ''enter''] None 1
     = Some (''A'', None)"
  by (simp add: SelectOption_def initialModel_def menu_AB_def newKeyMap_def Matches_def)

text \<open>A map with two entries is visited in one of two orders.\<close>

lemma range_order_pair:
  assumes "range_order {a, b} es" "a \<noteq> b"
  shows "es = [a, b] \<or> es = [b, a]"
proof -
  from assms have d: "distinct es" and s: "set es = {a, b}" by (simp_all add: range_order_def)
  from d s assms(2) have "length es = 2" using distinct_card [OF d] by simp
  then obtain x y where "es = [x, y]"
    by (cases es; cases "tl es") auto
  with d s show ?thesis by (auto simp: doubleton_eq_iff)
qed

text \<open>C4, as amended: for the map with the entries A and B, down followed by enter makes
  \<^verbatim>\<open>SelectOption\<close> return, with a nil error, the title of the entry that \<^verbatim>\<open>range\<close>
  visited second: B when the map was visited in the order A, B and A when it was visited
  in the order B, A.\<close>

theorem down_enter_selects_second_visited:
  assumes "range_order {(''A'', ''descA''), (''B'', ''descB'')} es"
  shows "(es = menu_AB \<or> es = menu_BA)
       \<and> SelectOption ttl es center [KeyMsg ''down'', KeyMsg ''enter''] failure lag
           = Some (fst (es ! 1), None)
       \<and> fst (es ! 1) = (if es = menu_AB then ''B'' else ''A'')"
proof -
  from range_order_pair [OF assms] have "es = menu_AB \<or> es = menu_BA"
    by (simp add: menu_AB_def menu_BA_def)
  then show ?thesis
    by (auto simp: menu_AB_def menu_BA_def SelectOption_def initialModel_def newKeyMap_def
        Matches_def drain_Nil)
qed

theorem down_enter_selects_second_visited_witness:
  "range_order {(''A'', ''descA''), (''B'', ''descB'')} menu_AB
   \<and> SelectOption ''pick'' menu_AB False [KeyMsg ''down'', KeyMsg ''enter''] None 0
       = Some (''B'', None)
   \<and> range_order {(''A'', ''descA''), (''B'', ''descB'')} menu_BA
   \<and> SelectOption ''pick'' menu_BA False [KeyMsg ''down'', KeyMsg ''enter''] None 0
       = Some (''A'', None)"
proof -
  have h1: "range_order {(''A'', ''descA''), (''B'', ''descB'')} menu_AB"
    by (simp add: range_order_def menu_AB_def)
  have h2: "range_order {(''A'', ''descA''), (''B'', ''descB'')} menu_BA"
    by (auto simp: range_order_def menu_BA_def)
  have ne: "menu_BA \<noteq> menu_AB"
    by (simp add: menu_AB_def menu_BA_def)
  from down_enter_selects_second_visited [OF h1, of "''pick''" False None 0]
    down_enter_selects_second_visited [OF h2, of "''pick''" False None 0] h1 h2 ne
  show ?thesis by simp
qed

text \<open>C4 as stated fails: visited in the order B, A, the same map and the same two keys
  give the choice A.\<close>

theorem down_enter_returns_A_counterexample:
  "range_order {(''A'', ''descA''), (''B'', ''descB'')} menu_BA
   \<and> SelectOption ''pick'' menu_BA False [KeyMsg ''down'', KeyMsg ''enter''] None 0
       = Some (''A'', None)
   \<and> SelectOption ''pick'' menu_BA False [KeyMsg ''down'', KeyMsg ''enter''] None 0
       \<noteq> Some (''B'', None)"
  by (auto simp: range_order_def menu_BA_def SelectOption_def initialModel_def newKeyMap_def
      Matches_def)

subsection \<open>Prompts\<close>

text \<open>Lines and the buffer: what making room and reading keep.\<close>

lemma raw_line_append: "CHR 0x0A \<in> set b \<Longrightarrow> raw_line (b @ x) = raw_line b"
  by (simp add: raw_line_def)

lemma raw_line_absent: "CHR 0x0A \<notin> set b \<Longrightarrow> raw_line b = b"
  by (simp add: raw_line_def takeWhile_absent)

lemma raw_line_prefix: "CHR 0x0A \<notin> set b \<Longrightarrow> length b \<le> length (raw_line (b @ x))"
  by (induction b) (auto simp: raw_line_def)

lemma rest_lines_append: "CHR 0x0A \<in> set b \<Longrightarrow> rest_lines (b @ x) = rest_lines b @ x"
  by (simp add: rest_lines_def raw_line_def Suc_le_eq length_takeWhile_neq)

lemma rest_lines_no_newline: "CHR 0x0A \<notin> set b \<Longrightarrow> rest_lines b = []"
  by (simp add: rest_lines_def raw_line_absent)

lemma fits_shift: "fits s \<Longrightarrow> fits (shift s)"
  by (simp add: fits_def shift_def)

lemma shift_same: "buf (shift s) = buf s" "err (shift s) = err s" "src (shift s) = src s"
  by (simp_all add: shift_def)

lemma grow_same: "buf (grow s) = buf s" "err (grow s) = err s" "src (grow s) = src s"
  by (simp_all add: grow_def Let_def)

lemma avail_shift: "avail (shift s) = avail s" and final_shift: "final_err (shift s) = final_err s"
  by (simp_all add: avail_def final_err_def shift_same split: option.splits)

lemma avail_grow: "avail (grow s) = avail s" and final_grow: "final_err (grow s) = final_err s"
  by (simp_all add: avail_def final_err_def grow_same split: option.splits)

lemma full_shift_start: "fits s \<Longrightarrow> full (shift s) \<Longrightarrow> length (buf s) = cap (shift s)"
  by (auto simp: fits_def shift_def full_def split: if_splits)

lemma room_after_shift:
  "fits s \<Longrightarrow> \<not> full (shift s) \<Longrightarrow>
   start (shift s) + length (buf (shift s)) < cap (shift s)"
  by (auto simp: fits_def shift_def full_def split: if_splits)

lemma room_after_grow:
  assumes "fits s" "full (shift s)" "\<not> maxTokenSize \<le> cap (shift s)"
  shows "fits (grow (shift s))
    \<and> start (grow (shift s)) + length (buf (grow (shift s))) < cap (grow (shift s))"
proof -
  from assms(1,2) have l: "length (buf s) = cap (shift s)" by (rule full_shift_start)
  from assms(3) have "cap (shift s) < cap (grow (shift s))"
    and "cap (grow (shift s)) \<le> maxTokenSize"
    by (auto simp: grow_def Let_def startBufSize_def maxTokenSize_def)
  with l show ?thesis
    by (simp add: fits_def grow_same shift_same) (simp add: grow_def Let_def)
qed

lemma read_more_keeps:
  assumes "fits s" "start s + length (buf s) < cap s" "err s = None"
  shows "fits (read_more s) \<and> avail (read_more s) = avail s
    \<and> final_err (read_more s) = final_err s"
proof (cases "src s")
  case Nil
  with assms show ?thesis
    by (simp add: read_more_def fits_def avail_def final_err_def)
next
  case (Cons r rest)
  obtain d e where r: "r = (d, e)" by (cases r)
  show ?thesis
  proof (cases "length d \<le> cap s - (start s + length (buf s))")
    case True
    with assms Cons r show ?thesis
      by (auto simp: read_more_def fits_def avail_def final_err_def Let_def split: option.splits)
  next
    case False
    with assms Cons r show ?thesis
      by (auto simp: read_more_def fits_def avail_def final_err_def Let_def split: option.splits)
  qed
qed

text \<open>As long as the first line of the bytes left is below the maximal token size, what
  \<^verbatim>\<open>Scan\<close> returns does not depend on how the input arrives: it yields that line and
  keeps the rest. When those bytes hold no newline the scanner has met the end of the
  input, and its error is set.\<close>

lemma Scan_spec:
  "Scan s = (tok, s') \<Longrightarrow> fits s \<Longrightarrow> length (raw_line (avail s)) < maxTokenSize \<Longrightarrow>
     tok = (if avail s = [] then None else Some (first_line (avail s)))
     \<and> avail s' = rest_lines (avail s)
     \<and> final_err s' = final_err s
     \<and> (CHR 0x0A \<notin> set (avail s) \<longrightarrow> err s' = Some (final_err s))
     \<and> fits s'"
proof (induction "unread s" arbitrary: s rule: less_induct)
  case less
  note fit = \<open>fits s\<close> and short = \<open>length (raw_line (avail s)) < maxTokenSize\<close>
  show ?case
  proof (cases "CHR 0x0A \<in> set (buf s)")
    case True
    let ?n = "Suc (length (takeWhile (\<lambda>c. c \<noteq> CHR 0x0A) (buf s)))"
    from length_takeWhile_neq [OF True] have n: "?n \<le> length (buf s)" by simp
    from less.prems(1) Scan_found [OF True]
    have tok: "tok = Some (dropCR (takeWhile (\<lambda>c. c \<noteq> CHR 0x0A) (buf s)))"
      and s': "s' = s\<lparr>buf := drop ?n (buf s), start := start s + ?n\<rparr>"
      by simp_all
    from True have a: "avail s \<noteq> []" "CHR 0x0A \<in> set (avail s)"
      by (auto simp: avail_def)
    have "first_line (avail s) = dropCR (takeWhile (\<lambda>c. c \<noteq> CHR 0x0A) (buf s))"
      using True by (simp add: first_line_def avail_def raw_line_append) (simp add: raw_line_def)
    moreover have "avail s' = rest_lines (avail s)"
      using True s'
      by (simp add: avail_def rest_lines_append split: option.splits)
        (simp add: rest_lines_def raw_line_def)
    moreover have "final_err s' = final_err s"
      using s' by (simp add: final_err_def split: option.splits)
    moreover have "fits s'" using fit s' n by (auto simp: fits_def)
    ultimately show ?thesis using tok a by simp
  next
    case nonl: False
    show ?thesis
    proof (cases "err s")
      case (Some e)
      show ?thesis
      proof (cases "buf s = []")
        case True
        with less.prems(1) Scan_done [OF True Some] Some fit show ?thesis
          by (auto simp: avail_def final_err_def rest_lines_def fits_def)
      next
        case False
        with less.prems(1) Scan_last [OF nonl False Some] Some nonl fit show ?thesis
          by (auto simp: avail_def final_err_def rest_lines_no_newline first_line_def
              raw_line_absent fits_def)
      qed
    next
      case None
      note step = Scan_more [OF nonl None]
      have notlong: "\<not> (full (shift s) \<and> maxTokenSize \<le> cap (shift s))"
      proof
        assume f: "full (shift s) \<and> maxTokenSize \<le> cap (shift s)"
        with full_shift_start [OF fit] have "maxTokenSize \<le> length (buf s)" by simp
        also from raw_line_prefix [OF nonl] have "\<dots> \<le> length (raw_line (avail s))"
          by (simp add: avail_def)
        finally show False using short by simp
      qed
      define s2 where "s2 = (if full (shift s) then grow (shift s) else shift s)"
      from step notlong less.prems(1) have sc: "Scan (read_more s2) = (tok, s')"
        by (auto simp: s2_def split: if_splits)
      have s2: "fits s2" "start s2 + length (buf s2) < cap s2" "err s2 = None"
        "avail s2 = avail s" "final_err s2 = final_err s" "unread s2 = unread s"
        using notlong room_after_grow [OF fit] room_after_shift [OF fit] fits_shift [OF fit] None
        by (auto simp: s2_def grow_same shift_same avail_grow avail_shift final_grow final_shift
            unread_grow unread_shift)
      from read_more_keeps [OF s2(1,2,3)] s2
      have k: "fits (read_more s2)" "avail (read_more s2) = avail s"
        "final_err (read_more s2) = final_err s" by simp_all
      from unread_read_more [OF s2(3)] s2 have "unread (read_more s2) < unread s" by simp
      from less.hyps [OF this sc k(1)] short k show ?thesis by simp
    qed
  qed
qed


lemma stdin_lines_step:
  "stdin_lines data = (if data = [] then [] else first_line data # stdin_lines (rest_lines data))"
  by (simp add: stdin_lines_def first_line_def raw_lines.simps [of data])

lemma short_lines_step:
  "short_lines data \<Longrightarrow> data \<noteq> [] \<Longrightarrow>
   length (raw_line data) < maxTokenSize \<and> short_lines (rest_lines data)"
  by (simp add: short_lines_def raw_lines.simps [of data])

lemma short_lines_first: "short_lines data \<Longrightarrow> length (raw_line data) < maxTokenSize"
proof (cases "data = []")
  case True
  then show ?thesis by (simp add: raw_line_def maxTokenSize_def)
next
  case False
  assume "short_lines data"
  from short_lines_step [OF this False] show ?thesis by simp
qed

text \<open>The loop of \<^verbatim>\<open>MUserInput\<close> appends the lines before the first empty one; when
  there is no empty line it stops only at the end of the input, with the error set.\<close>

lemma read_lines_spec:
  "read_lines s input = (input', s') \<Longrightarrow> fits s \<Longrightarrow> short_lines (avail s) \<Longrightarrow>
     input' = input @ terminated_lines (avail s)
     \<and> final_err s' = final_err s
     \<and> ([] \<notin> set (stdin_lines (avail s)) \<longrightarrow> err s' = Some (final_err s))"
proof (induction s input rule: read_lines.induct)
  case (1 s input)
  obtain tok s1 where sc: "Scan s = (tok, s1)" by (cases "Scan s")
  note spec = Scan_spec [OF sc \<open>fits s\<close> short_lines_first [OF \<open>short_lines (avail s)\<close>]]
  show ?case
  proof (cases tok)
    case None
    with spec have e: "avail s = []" by (simp split: if_splits)
    from None sc "1.prems"(1) have "input' = input" "s' = s1"
      by (simp_all add: read_lines.simps [of s])
    with spec e show ?thesis
      by (simp add: terminated_lines_def stdin_lines_step [of "[]"])
  next
    case (Some line)
    with spec have ne: "avail s \<noteq> []" and line: "line = first_line (avail s)"
      by (simp_all split: if_splits)
    from ne line have ls: "stdin_lines (avail s) = line # stdin_lines (avail s1)"
      using spec by (simp add: stdin_lines_step [of "avail s"])
    from short_lines_step [OF \<open>short_lines (avail s)\<close> ne] spec
    have sh: "short_lines (avail s1)" by simp
    show ?thesis
    proof (cases "line = []")
      case True
      with Some sc "1.prems"(1) have "input' = input" "s' = s1"
        by (simp_all add: read_lines.simps [of s])
      with spec ls True show ?thesis
        by (simp add: terminated_lines_def)
    next
      case False
      with Some sc "1.prems"(1) have "read_lines s1 (input @ line @ [CHR 0x0A]) = (input', s')"
        by (simp add: read_lines.simps [of s])
      from "1.IH" [OF sc [symmetric] Some False this] spec sh ls False show ?thesis
        by (simp add: terminated_lines_def)
    qed
  qed
qed

lemma avail_NewScanner: "avail (NewScanner r) = stream_data r"
  and final_NewScanner: "final_err (NewScanner r) = stream_err r"
  and fits_NewScanner: "fits (NewScanner r)"
  by (simp_all add: avail_def final_err_def fits_def NewScanner_def)



lemma raw_lines_length: "list_all (\<lambda>l. length l \<le> length data) (raw_lines data)"
proof (induction data rule: raw_lines.induct)
  case (1 data)
  show ?case
  proof (cases "data = []")
    case True
    then show ?thesis by (simp add: raw_lines.simps [of "[]"])
  next
    case False
    have "length (rest_lines data) \<le> length data" by (simp add: rest_lines_def)
    with "1.IH" [OF False]
    have "list_all (\<lambda>l. length l \<le> length data) (raw_lines (rest_lines data))"
      by (auto simp: list_all_iff)
    moreover have "length (raw_line data) \<le> length data"
      by (simp add: raw_line_def length_takeWhile_le)
    ultimately show ?thesis using False by (simp add: raw_lines.simps [of data])
  qed
qed

lemma short_lines_small: "length data < maxTokenSize \<Longrightarrow> short_lines data"
  using raw_lines_length [of data] by (auto simp: short_lines_def list_all_iff)




text \<open>C3, as amended: let the input end in a read error, with every line before it below
  the scanner's maximal token size. Both prompts then log the error through
  \<^verbatim>\<open>log.Println\<close>. \<^verbatim>\<open>UserInput\<close>, when the error strikes before the first newline,
  stores the bytes read so far as the line, and leaves the output as it was when there
  are none. \<^verbatim>\<open>MUserInput\<close>, when no empty line came before the error, returns without
  assigning: the output keeps the value it had, and the lines read are dropped.\<close>

theorem read_error_handling:
  assumes "stream_err stdin = ReadError e"
  shows "(CHR 0x0A \<notin> set (stream_data stdin) \<and> length (stream_data stdin) < maxTokenSize \<longrightarrow>
            UserInput fl now prompt stdin old =
              (logMessage fl now ''USERINPUT'' prompt @ [LogPrintln (''Error reading input: '' @ e)],
               if stream_data stdin = [] then old else dropCR (stream_data stdin)))
       \<and> ([] \<notin> set (stdin_lines (stream_data stdin)) \<and> short_lines (stream_data stdin) \<longrightarrow>
            MUserInput fl now prompt stdin old =
              (logMessage fl now ''USERINPUT'' prompt @ [LogPrintln (''Error reading input: '' @ e)],
               old))"
proof -
  have "UserInput fl now prompt stdin old =
              (logMessage fl now ''USERINPUT'' prompt @ [LogPrintln (''Error reading input: '' @ e)],
               if stream_data stdin = [] then old else dropCR (stream_data stdin))"
    if nonl: "CHR 0x0A \<notin> set (stream_data stdin)"
      and len: "length (stream_data stdin) < maxTokenSize"
  proof -
    obtain tok s where sc: "Scan (NewScanner stdin) = (tok, s)"
      by (cases "Scan (NewScanner stdin)")
    from nonl len have "length (raw_line (avail (NewScanner stdin))) < maxTokenSize"
      by (simp add: avail_NewScanner raw_line_absent)
    from Scan_spec [OF sc fits_NewScanner this] nonl assms
    have "tok = (if stream_data stdin = [] then None else Some (dropCR (stream_data stdin)))"
      and "err s = Some (ReadError e)"
      by (simp_all add: avail_NewScanner final_NewScanner first_line_def raw_line_absent)
    with sc show ?thesis
      by (simp add: UserInput_def Err_def)
  qed
  moreover
  have "MUserInput fl now prompt stdin old =
              (logMessage fl now ''USERINPUT'' prompt @ [LogPrintln (''Error reading input: '' @ e)],
               old)"
    if noempty: "[] \<notin> set (stdin_lines (stream_data stdin))"
      and short: "short_lines (stream_data stdin)"
  proof -
    obtain input s where rl: "read_lines (NewScanner stdin) [] = (input, s)"
      by (cases "read_lines (NewScanner stdin) []")
    from short have "short_lines (avail (NewScanner stdin))" by (simp add: avail_NewScanner)
    from read_lines_spec [OF rl fits_NewScanner this] noempty assms
    have "err s = Some (ReadError e)"
      by (simp add: avail_NewScanner final_NewScanner)
    with rl show ?thesis
      by (simp add: MUserInput_def Err_def)
  qed
  ultimately show ?thesis by blast
qed

theorem read_error_handling_witness:
  "stream_err stdin_partial = ReadError ''input/output error''
   \<and> CHR 0x0A \<notin> set (stream_data stdin_partial)
   \<and> length (stream_data stdin_partial) < maxTokenSize
   \<and> snd (UserInput fl_plain ''2024-05-01 12:00:00'' ''name: '' stdin_partial ''old'') = ''hel''
   \<and> stream_err stdin_broken = ReadError ''input/output error''
   \<and> [] \<notin> set (stdin_lines (stream_data stdin_broken))
   \<and> short_lines (stream_data stdin_broken)
   \<and> snd (MUserInput fl_plain ''2024-05-01 12:00:00'' ''text: '' stdin_broken ''old'') = ''old''"
proof -
  have h1: "stream_err stdin_partial = ReadError ''input/output error''"
    and h2: "CHR 0x0A \<notin> set (stream_data stdin_partial)"
    and h3: "stream_err stdin_broken = ReadError ''input/output error''"
    and h5: "length (stream_data stdin_partial) < maxTokenSize"
    by (simp_all add: stdin_partial_def stdin_broken_def maxTokenSize_def)
  have h4: "[] \<notin> set (stdin_lines (stream_data stdin_broken))"
    by code_simp
  have h6: "short_lines (stream_data stdin_broken)"
    by (rule short_lines_small) (simp add: stdin_broken_def maxTokenSize_def)
  have d: "stream_data stdin_partial = ''hel''" by (simp add: stdin_partial_def)
  from read_error_handling [OF h1, of fl_plain "''2024-05-01 12:00:00''" "''name: ''" "''old''"]
    read_error_handling [OF h3, of fl_plain "''2024-05-01 12:00:00''" "''text: ''" "''old''"]
    h1 h2 h3 h4 h5 h6 d
  show ?thesis by (simp add: dropCR_def)
qed

text \<open>C3 as stated fails for \<^verbatim>\<open>MUserInput\<close>: after the line \<open>a\<close> a read fails; the loop
  has collected \<open>a\<close> and a newline, the error is logged, and the output still holds its
  old value.\<close>

theorem MUserInput_read_error_counterexample:
  "fst (read_lines (NewScanner stdin_broken) []) = ''a'' @ [CHR 0x0A]
   \<and> Err (snd (read_lines (NewScanner stdin_broken) [])) = Some (ReadError ''input/output error'')
   \<and> MUserInput fl_plain ''2024-05-01 12:00:00'' ''text: '' stdin_broken ''old''
       = ([FmtPrint (''[2024-05-01 12:00:00]'' @ colorReset @ '' ['' @ emojiInput @ ''] text: ''),
           LogPrintln ''Error reading input: input/output error''], ''old'')"
proof -
  obtain input s where rl: "read_lines (NewScanner stdin_broken) [] = (input, s)"
    by (cases "read_lines (NewScanner stdin_broken) []")
  have d: "stream_data stdin_broken = ''a'' @ [CHR 0x0A]"
    and e: "stream_err stdin_broken = ReadError ''input/output error''"
    by (simp_all add: stdin_broken_def)
  have sh: "short_lines (avail (NewScanner stdin_broken))"
    unfolding avail_NewScanner by (rule short_lines_small) (simp add: d maxTokenSize_def)
  have t: "terminated_lines (''a'' @ [CHR 0x0A]) = ''a'' @ [CHR 0x0A]"
    and n: "[] \<notin> set (stdin_lines (''a'' @ [CHR 0x0A]))"
    by code_simp+
  from read_lines_spec [OF rl fits_NewScanner sh] d e t n
  have "input = ''a'' @ [CHR 0x0A]" "err s = Some (ReadError ''input/output error'')"
    by (simp_all add: avail_NewScanner final_NewScanner)
  with rl show ?thesis
    by (simp add: MUserInput_def Err_def logMessage_def fl_plain_def level_emoji_def Let_def)
qed





end
